theory Spec2Isabelle
  imports Main "HOL-Library.Char_ord" "HOL-Library.List_Lexorder" "HOL-Library.Multiset"
begin

section \<open>Strings and JSON values\<close>

text \<open>
  A JavaScript string is modelled as a \<^typ>\<open>string\<close> whose characters are the UTF-16 code
  units below 256 (ASCII and Latin-1). On that range \<open>String.prototype.toLowerCase\<close> adds 32
  to \<open>A\<close>..\<open>Z\<close> and to U+00C0..U+00DE except the multiplication sign U+00D7, and leaves every
  other code unit alone; \<open>String.prototype.trim\<close> strips tab, line feed, vertical tab, form
  feed, carriage return, space and the no-break space U+00A0 from both ends.
\<close>

definition toLowerChar :: "char \<Rightarrow> char" where
  "toLowerChar c =
     (let n = (of_char c :: nat)
      in if (65 \<le> n \<and> n \<le> 90) \<or> (192 \<le> n \<and> n \<le> 222 \<and> n \<noteq> 215)
         then char_of (n + 32) else c)"

definition toLowerCase :: "string \<Rightarrow> string" where
  "toLowerCase s = map toLowerChar s"

fun startsWith :: "string \<Rightarrow> string \<Rightarrow> bool" where
  "startsWith s [] = True"
| "startsWith [] (p # ps) = False"
| "startsWith (c # cs) (p # ps) = (c = p \<and> startsWith cs ps)"

definition isWhiteSpace :: "char \<Rightarrow> bool" where
  "isWhiteSpace c = ((of_char c :: nat) \<in> {9, 10, 11, 12, 13, 32, 160})"

definition trim :: "string \<Rightarrow> string" where
  "trim s = rev (dropWhile isWhiteSpace (rev (dropWhile isWhiteSpace s)))"

text \<open>
  \<open>Prisma.JsonValue\<close>: a string, number, boolean, null, array or object. An object is the
  list of its own properties; the numeric carrier is never inspected by the code below.
\<close>

datatype JsonValue =
    JsonNull
  | JsonBool bool
  | JsonNumber int
  | JsonString string
  | JsonArray "JsonValue list"
  | JsonObject "(string \<times> JsonValue) list"

section \<open>The classifier (activityEventService.ts)\<close>

definition VIDEO_EVENT_PREFIXES :: "string list" where
  "VIDEO_EVENT_PREFIXES =
     [''video.play'', ''video.resume'', ''video.buffer.end'', ''progress.snapshot'',
      ''persona.'', ''notes.'', ''lesson.'', ''cold_call.'', ''tutor.response'']"

definition FRICTION_EVENT_PREFIXES :: "string list" where
  "FRICTION_EVENT_PREFIXES =
     [''quiz.fail'', ''quiz.retry'', ''tutor.prompt'', ''cold_call.star'', ''cold_call.submit'',
      ''tutor.response_received'', ''content.friction'']"

definition ATTENTION_EVENT_PREFIXES :: "string list" where
  "ATTENTION_EVENT_PREFIXES =
     [''idle.'', ''video.pause'', ''video.buffer.start'', ''lesson.locked_click'']"

text \<open>
  \<open>buildReason\<close>: the payload's \<open>reason\<close> is used when the payload is a non-null object
  (\<open>typeof payload === "object" && payload\<close>; an array is an object too, but has no property
  \<open>reason\<close>), the property exists, is a string, and its trimmed form is truthy, that is
  non-empty. Otherwise the template \<open>`${fallback} (${eventType})`\<close> is returned.
\<close>

definition buildReason :: "string \<Rightarrow> JsonValue option \<Rightarrow> string \<Rightarrow> string" where
  "buildReason eventType payload fallback =
     (case payload of
        Some (JsonObject props) \<Rightarrow>
          (case map_of props ''reason'' of
             Some (JsonString possible) \<Rightarrow>
               (if trim possible \<noteq> [] then possible
                else fallback @ '' ('' @ eventType @ '')'')
           | _ \<Rightarrow> fallback @ '' ('' @ eventType @ '')'')
      | _ \<Rightarrow> fallback @ '' ('' @ eventType @ '')'')"

text \<open>
  The result object \<open>{ derivedStatus?: string; statusReason?: string }\<close>; an absent field
  is \<open>None\<close>. The field names carry the suffix \<open>_c\<close> to keep them apart from the columns of
  \<open>LearnerStatusRow\<close> below.
\<close>

record Classification =
  derivedStatus_c :: "string option"
  statusReason_c :: "string option"

definition classifyEvent :: "string \<Rightarrow> JsonValue option \<Rightarrow> Classification" where
  "classifyEvent eventType payload =
     (let normalized = toLowerCase eventType
      in if list_ex (\<lambda>prefix. startsWith normalized prefix) ATTENTION_EVENT_PREFIXES then
           \<lparr>derivedStatus_c = Some ''attention_drift'',
            statusReason_c = Some (buildReason eventType payload ''Idle or pause pattern detected'')\<rparr>
         else if list_ex (\<lambda>prefix. startsWith normalized prefix) FRICTION_EVENT_PREFIXES then
           \<lparr>derivedStatus_c = Some ''content_friction'',
            statusReason_c = Some (buildReason eventType payload ''Learner signaled friction'')\<rparr>
         else if list_ex (\<lambda>prefix. startsWith normalized prefix) VIDEO_EVENT_PREFIXES then
           \<lparr>derivedStatus_c = Some ''engaged'',
            statusReason_c = Some (buildReason eventType payload ''Learner interacting with content'')\<rparr>
         else \<lparr>derivedStatus_c = None, statusReason_c = None\<rparr>)"

section \<open>Ingestion (activityEventService.ts)\<close>

text \<open>
  \<open>TelemetryEventInput\<close>. An optional or nullable field is an \<^typ>\<open>'a option\<close>
  (\<open>undefined\<close> and \<open>null\<close> are both \<open>None\<close>: the code only applies \<open>??\<close> to them); a
  \<open>Date\<close> is its \<open>getTime()\<close>, the milliseconds since the epoch. Field names carry the
  suffix \<open>_i\<close>.
\<close>

record TelemetryEventInput =
  courseId_i :: string
  moduleNo_i :: "int option"
  topicId_i :: "string option"
  eventType_i :: string
  payload_i :: "JsonValue option"
  occurredAt_i :: "int option"

text \<open>
  The table \<open>learner_activity_events\<close>, with the column names of the raw SQL below.
  \<open>ActivityEventData\<close> is a row as \<open>recordActivityEvents\<close> hands it to \<open>createMany\<close>;
  the stored row \<open>ActivityEventRow\<close> has the key \<open>event_id\<close> as well, which the database
  assigns.
\<close>

record ActivityEventData =
  user_id :: string
  course_id :: string
  module_no :: "int option"
  topic_id :: "string option"
  event_type :: string
  payload :: JsonValue
  derived_status :: "string option"
  status_reason :: "string option"
  created_at :: int

record ActivityEventRow = ActivityEventData +
  event_id :: string

text \<open>
  \<open>recordActivityEvents\<close> returns the \<open>data\<close> of its \<open>createMany\<close> call, and the empty
  list when it returns early without one. \<open>clock n\<close> is the value of \<open>new Date()\<close> evaluated
  while the event at index \<open>n\<close> is mapped.
\<close>

definition eventToRow :: "string \<Rightarrow> int \<Rightarrow> TelemetryEventInput \<Rightarrow> ActivityEventData" where
  "eventToRow userId now event =
     (let c = classifyEvent (eventType_i event) (payload_i event)
      in \<lparr>user_id = userId,
          course_id = courseId_i event,
          module_no = moduleNo_i event,
          topic_id = topicId_i event,
          event_type = eventType_i event,
          payload = (case payload_i event of Some p \<Rightarrow> p | None \<Rightarrow> JsonNull),
          derived_status = derivedStatus_c c,
          status_reason = statusReason_c c,
          created_at = (case occurredAt_i event of Some t \<Rightarrow> t | None \<Rightarrow> now)\<rparr>)"

definition recordActivityEvents ::
    "(nat \<Rightarrow> int) \<Rightarrow> string \<Rightarrow> TelemetryEventInput list \<Rightarrow> ActivityEventData list" where
  "recordActivityEvents clock userId events =
     (if length events = 0 then []
      else map (\<lambda>(n, event). eventToRow userId (clock n) event) (enumerate 0 events))"

section \<open>Aggregation and history (activityEventService.ts, TutorDashboardPage.tsx)\<close>

record LearnerStatusRow =
  eventId :: string
  userId :: string
  courseId :: string
  fullName :: "string option"
  email :: "string option"
  moduleNo :: "int option"
  topicId :: "string option"
  eventType :: string
  derivedStatus :: "string option"
  statusReason :: "string option"
  createdAt :: int

text \<open>
  \<open>Array.prototype.sort\<close> with a comparator. The language requires the sort to be stable, and
  for a consistent comparator the result is then determined: it is the one a stable insertion
  sort gives, where \<open>x\<close> goes before the first \<open>y\<close> with \<open>cmp x y \<le> 0\<close>.
\<close>

fun insertBy :: "('a \<Rightarrow> 'a \<Rightarrow> int) \<Rightarrow> 'a \<Rightarrow> 'a list \<Rightarrow> 'a list" where
  "insertBy cmp x [] = [x]"
| "insertBy cmp x (y # ys) = (if cmp x y \<le> 0 then x # y # ys else y # insertBy cmp x ys)"

definition array_sort :: "('a \<Rightarrow> 'a \<Rightarrow> int) \<Rightarrow> 'a list \<Rightarrow> 'a list" where
  "array_sort cmp xs = foldr (insertBy cmp) xs []"

definition deriveStatusFromEvents :: "LearnerStatusRow list \<Rightarrow> LearnerStatusRow option" where
  "deriveStatusFromEvents events =
     (if length events = 0 then None
      else
        let sortedEvents = array_sort (\<lambda>a b. createdAt b - createdAt a) events;
            frictionEvent = find (\<lambda>event. derivedStatus event = Some ''content_friction'') sortedEvents;
            attentionEvent = find (\<lambda>event. derivedStatus event = Some ''attention_drift'') sortedEvents;
            engagedEvent = find (\<lambda>event. derivedStatus event = Some ''engaged'') sortedEvents;
            fallback = (case sortedEvents of [] \<Rightarrow> None | first # _ \<Rightarrow> Some first)
        in case frictionEvent of
             Some event \<Rightarrow> Some (event\<lparr>derivedStatus := Some ''content_friction''\<rparr>)
           | None \<Rightarrow>
        (case attentionEvent of
             Some event \<Rightarrow> Some (event\<lparr>derivedStatus := Some ''attention_drift''\<rparr>)
           | None \<Rightarrow>
        (case engagedEvent of
             Some event \<Rightarrow> Some (event\<lparr>derivedStatus := Some ''engaged''\<rparr>)
           | None \<Rightarrow> fallback)))"

text \<open>
  The casts \<open>::uuid\<close> of the raw SQL are the database's. \<open>uuid_in\<close> is the input syntax of
  PostgreSQL's type \<open>uuid\<close>: thirty-two hexadecimal digits in either case, an optional hyphen
  after any group of four of them, the whole optionally in braces. Its value is the output
  form of the type, lower-case digits in groups of 8, 4, 4, 4 and 12, and \<open>None\<close> when the
  cast raises. The columns \<open>event_id\<close>, \<open>user_id\<close> and \<open>course_id\<close> hold that output form.
\<close>

definition isxdigit :: "char \<Rightarrow> bool" where
  "isxdigit c = (c \<in> set ''0123456789abcdefABCDEF'')"

fun uuidBytes :: "nat \<Rightarrow> string \<Rightarrow> (string \<times> string) option" where
  "uuidBytes 0 src = Some ([], src)"
| "uuidBytes (Suc n) (h1 # h2 # rest) =
     (if isxdigit h1 \<and> isxdigit h2 then
        (let i = 15 - n;
             rest' = (case rest of
                        [] \<Rightarrow> rest
                      | c # r \<Rightarrow> if c = CHR ''-'' \<and> i mod 2 = 1 \<and> i < 15 then r else rest)
         in case uuidBytes n rest' of
              None \<Rightarrow> None
            | Some (digits, left) \<Rightarrow> Some (toLowerChar h1 # toLowerChar h2 # digits, left))
      else None)"
| "uuidBytes (Suc n) src = None"

definition uuid_in :: "string \<Rightarrow> string option" where
  "uuid_in source =
     (let (braces, src) = (case source of
                             [] \<Rightarrow> (False, source)
                           | c # r \<Rightarrow> if c = CHR ''{'' then (True, r) else (False, source))
      in case uuidBytes 16 src of
           None \<Rightarrow> None
         | Some (digits, left) \<Rightarrow>
             if left = (if braces then ''}'' else [])
             then Some (take 8 digits @ ''-'' @ take 4 (drop 8 digits) @ ''-'' @
                        take 4 (drop 12 digits) @ ''-'' @ take 4 (drop 16 digits) @ ''-'' @
                        drop 20 digits)
             else None)"

text \<open>
  \<open>getLearnerHistory\<close> runs \<open>SELECT ... WHERE user_id = userId::uuid AND course_id =
  courseId::uuid [AND created_at < before] ORDER BY created_at DESC LIMIT limit\<close>, and its
  promise is rejected when the database raises. It takes two things from the database as
  parameters. \<open>uuid\<close> is the cast to \<open>uuid\<close>, as above. \<open>plan\<close> is the order in which the plan
  the database chose produces the rows that satisfy \<open>WHERE\<close>: it may rearrange them in any
  way. \<open>ORDER BY\<close> sorts on \<open>created_at\<close> alone and says nothing about rows with equal
  \<open>created_at\<close>; sorting what the plan produces stably gives, over all plans, exactly the
  arrangements of those rows in which \<open>created_at\<close> never increases. The columns \<open>fullName\<close>
  and \<open>email\<close> are not selected.
\<close>

datatype QueryError = DatabaseError

definition selectRow :: "ActivityEventRow \<Rightarrow> LearnerStatusRow" where
  "selectRow r =
     \<lparr>eventId = event_id r, userId = user_id r, courseId = course_id r,
      fullName = None, email = None,
      moduleNo = module_no r, topicId = topic_id r, eventType = event_type r,
      derivedStatus = derived_status r, statusReason = status_reason r,
      createdAt = created_at r\<rparr>"

definition historyWhere :: "string \<Rightarrow> string \<Rightarrow> int option \<Rightarrow> ActivityEventRow \<Rightarrow> bool" where
  "historyWhere u c beforeDate r =
     (user_id r = u \<and> course_id r = c \<and>
      (case beforeDate of None \<Rightarrow> True | Some t \<Rightarrow> created_at r < t))"

definition getLearnerHistory ::
    "(string \<Rightarrow> string option) \<Rightarrow> (ActivityEventRow list \<Rightarrow> ActivityEventRow list) \<Rightarrow>
     ActivityEventRow list \<Rightarrow> string \<Rightarrow> string \<Rightarrow> nat \<Rightarrow> int option \<Rightarrow>
     QueryError + LearnerStatusRow list" where
  "getLearnerHistory uuid plan table uid cid limit beforeDate =
     (case uuid uid of
        None \<Rightarrow> Inl DatabaseError
      | Some u \<Rightarrow>
     (case uuid cid of
        None \<Rightarrow> Inl DatabaseError
      | Some c \<Rightarrow>
          Inr (map selectRow
                (take limit
                  (array_sort (\<lambda>a b. created_at b - created_at a)
                    (plan (filter (historyWhere u c beforeDate) table)))))))"

text \<open>
  The dashboard's \<open>sortedHistoryEvents\<close>. \<open>new Date(e.createdAt).getTime()\<close> is the row's
  \<open>createdAt\<close>; a string is truthy when it is not empty, and a row without \<open>eventId\<close> is a
  row whose \<open>eventId\<close> is empty; \<open><\<close> on strings compares code units lexicographically.
\<close>

definition compareHistory :: "LearnerStatusRow \<Rightarrow> LearnerStatusRow \<Rightarrow> int" where
  "compareHistory a b =
     (let diff = createdAt b - createdAt a
      in if diff \<noteq> 0 then diff
         else if eventId a \<noteq> [] \<and> eventId b \<noteq> [] \<and> eventId a \<noteq> eventId b
              then (if eventId a < eventId b then 1 else - 1)
         else 0)"

text \<open>
  \<open>Array.prototype.sort\<close> fixes its result only for a comparator that is consistent on the
  array; otherwise the order is the engine's choice. \<open>compareHistory\<close> compares a row without
  id as equal to every row of its \<open>createdAt\<close>, so it is inconsistent exactly when such a row
  shares its \<open>createdAt\<close> with two rows of different ids. \<open>sortedHistoryEvents\<close> is \<open>None\<close>
  then.
\<close>

definition comparatorConsistent :: "LearnerStatusRow list \<Rightarrow> bool" where
  "comparatorConsistent h =
     (\<not> (\<exists>e\<in>set h. \<exists>a\<in>set h. \<exists>b\<in>set h.
            eventId e = [] \<and> eventId a \<noteq> [] \<and> eventId b \<noteq> [] \<and> eventId a \<noteq> eventId b \<and>
            createdAt a = createdAt e \<and> createdAt b = createdAt e))"

definition sortedHistoryEvents :: "LearnerStatusRow list \<Rightarrow> LearnerStatusRow list option" where
  "sortedHistoryEvents historyEvents =
     (if comparatorConsistent historyEvents
      then Some (array_sort compareHistory historyEvents)
      else None)"

section \<open>The client's event buffer (telemetry.ts)\<close>

text \<open>
  The client's \<open>TelemetryEvent\<close> (fields with the suffix \<open>_t\<close>); \<open>occurredAt\<close> is an ISO
  string here.
\<close>

record TelemetryEvent =
  courseId_t :: string
  moduleNo_t :: "int option"
  topicId_t :: "string option"
  eventType_t :: string
  payload_t :: "(string \<times> JsonValue) list option"
  occurredAt_t :: "string option"

text \<open>One call of \<open>apiRequest("POST", "/api/activity/events", ...)\<close>: the bearer token and the batch.\<close>

record ApiRequest =
  authorization :: string
  events_r :: "TelemetryEvent list"

text \<open>
  The module's variables \<open>currentToken\<close>, \<open>buffer\<close> and \<open>flushTimer\<close>, the constant
  \<open>isBrowser\<close>, and what the module does to the outside: \<open>requests\<close> lists the calls of
  \<open>apiRequest\<close> made so far, \<open>timerHandles\<close> counts the timers \<open>window.setTimeout\<close> has
  handed out (the next handle is its successor). A pending timer is the one \<open>flushTimer\<close>
  holds. A string is truthy when it is not empty, a handle when it is not zero.
\<close>

record TelemetryState =
  isBrowser :: bool
  currentToken :: "string option"
  buffer :: "TelemetryEvent list"
  flushTimer :: "nat option"
  timerHandles :: nat
  requests :: "ApiRequest list"

definition BUFFER_FLUSH_INTERVAL_MS :: nat where
  "BUFFER_FLUSH_INTERVAL_MS = 4000"

definition MAX_BUFFER_SIZE :: nat where
  "MAX_BUFFER_SIZE = 20"

definition tokenSet :: "TelemetryState \<Rightarrow> bool" where
  "tokenSet s = (case currentToken s of None \<Rightarrow> False | Some t \<Rightarrow> t \<noteq> [])"

definition timerSet :: "TelemetryState \<Rightarrow> bool" where
  "timerSet s = (case flushTimer s of None \<Rightarrow> False | Some h \<Rightarrow> h \<noteq> 0)"

text \<open>
  \<open>flushBuffer\<close> up to its \<open>await\<close>: the queue is copied and emptied and \<open>apiRequest\<close> is
  called, all before control returns to the caller. \<open>clock n\<close> is \<open>new
  Date().toISOString()\<close> evaluated while the event at index \<open>n\<close> is mapped. A rejected
  request is only logged and changes none of the variables.
\<close>

definition stampEvents :: "(nat \<Rightarrow> string) \<Rightarrow> TelemetryEvent list \<Rightarrow> TelemetryEvent list" where
  "stampEvents clock evs =
     map (\<lambda>(n, event). event\<lparr>occurredAt_t :=
            Some (case occurredAt_t event of Some t \<Rightarrow> t | None \<Rightarrow> clock n)\<rparr>)
         (enumerate 0 evs)"

definition flushBuffer :: "(nat \<Rightarrow> string) \<Rightarrow> TelemetryState \<Rightarrow> TelemetryState" where
  "flushBuffer clock s =
     (case currentToken s of
        None \<Rightarrow> s
      | Some token \<Rightarrow>
          if token = [] \<or> length (buffer s) = 0 then s
          else s\<lparr>buffer := [],
                  requests := requests s @
                    [\<lparr>authorization = token, events_r = stampEvents clock (buffer s)\<rparr>]\<rparr>)"

definition scheduleFlush :: "TelemetryState \<Rightarrow> TelemetryState" where
  "scheduleFlush s =
     (if timerSet s \<or> \<not> isBrowser s then s
      else s\<lparr>flushTimer := Some (Suc (timerHandles s)),
              timerHandles := Suc (timerHandles s)\<rparr>)"

text \<open>The callback of the timer, run when the pending timer fires.\<close>

definition timerCallback :: "(nat \<Rightarrow> string) \<Rightarrow> TelemetryState \<Rightarrow> TelemetryState" where
  "timerCallback clock s = flushBuffer clock (s\<lparr>flushTimer := None\<rparr>)"

definition updateTelemetryAccessToken :: "string option \<Rightarrow> TelemetryState \<Rightarrow> TelemetryState" where
  "updateTelemetryAccessToken token s =
     (let s1 = s\<lparr>currentToken := token\<rparr>
      in if \<not> tokenSet s1
         then (let s2 = s1\<lparr>buffer := []\<rparr>
               in if timerSet s2 then s2\<lparr>flushTimer := None\<rparr> else s2)
         else s1)"

definition recordTelemetryEvent ::
    "(nat \<Rightarrow> string) \<Rightarrow> TelemetryEvent \<Rightarrow> TelemetryState \<Rightarrow> TelemetryState" where
  "recordTelemetryEvent clock event s =
     (if \<not> tokenSet s \<or> \<not> isBrowser s then s
      else
        let s1 = s\<lparr>buffer := buffer s @ [event]\<rparr>
        in if length (buffer s1) \<ge> MAX_BUFFER_SIZE then flushBuffer clock s1
           else scheduleFlush s1)"

section \<open>Sample data\<close>

text \<open>A server clock that reads \<open>t0\<close> first and a millisecond more at each later reading.\<close>

definition serverClock :: "int \<Rightarrow> nat \<Rightarrow> int" where
  "serverClock t0 n = t0 + int n"

text \<open>A client clock that reads the same instant throughout a flush.\<close>

definition fixedClock :: "string \<Rightarrow> nat \<Rightarrow> string" where
  "fixedClock t n = t"

definition storedRow ::
    "string \<Rightarrow> string \<Rightarrow> string \<Rightarrow> string \<Rightarrow> string option \<Rightarrow> int \<Rightarrow> ActivityEventRow" where
  "storedRow i u c t s at =
     \<lparr>user_id = u, course_id = c, module_no = None, topic_id = None, event_type = t,
      payload = JsonNull, derived_status = s, status_reason = None, created_at = at,
      event_id = i\<rparr>"

definition statusRow :: "string \<Rightarrow> string \<Rightarrow> string option \<Rightarrow> int \<Rightarrow> LearnerStatusRow" where
  "statusRow i t s at = selectRow (storedRow i ''learner-1'' ''course-1'' t s at)"

definition inputEvent :: "string \<Rightarrow> int option \<Rightarrow> TelemetryEventInput" where
  "inputEvent t at =
     \<lparr>courseId_i = ''course-1'', moduleNo_i = None, topicId_i = None, eventType_i = t,
      payload_i = None, occurredAt_i = at\<rparr>"

definition clientEvent :: "string \<Rightarrow> TelemetryEvent" where
  "clientEvent t =
     \<lparr>courseId_t = ''course-1'', moduleNo_t = None, topicId_t = None, eventType_t = t,
      payload_t = None, occurredAt_t = None\<rparr>"

definition fullBuffer :: TelemetryState where
  "fullBuffer =
     \<lparr>isBrowser = True, currentToken = Some ''token'',
      buffer = replicate 19 (clientEvent ''idle.start''),
      flushTimer = Some 1, timerHandles = 1, requests = []\<rparr>"

text \<open>Two learners, a course and four events, with identifiers in the output form of \<open>uuid\<close>.\<close>

definition learnerOne :: string where
  "learnerOne = ''1b4e28ba-2fa1-41d2-883f-0016d3cca427''"

definition learnerTwo :: string where
  "learnerTwo = ''3f2504e0-4f89-41d3-9a0c-0305e82c3301''"

definition courseOne :: string where
  "courseOne = ''6fa459ea-ee8a-4ca4-894e-db77e160355e''"

definition eventA :: ActivityEventRow where
  "eventA = storedRow ''00000000-0000-4000-8000-00000000000a'' learnerOne courseOne
              ''video.play'' (Some ''engaged'') 5"

definition eventB :: ActivityEventRow where
  "eventB = storedRow ''00000000-0000-4000-8000-00000000000b'' learnerOne courseOne
              ''video.pause'' (Some ''attention_drift'') 5"

definition eventC :: ActivityEventRow where
  "eventC = storedRow ''00000000-0000-4000-8000-00000000000c'' learnerOne courseOne
              ''idle.start'' (Some ''attention_drift'') 9"

definition eventX :: ActivityEventRow where
  "eventX = storedRow ''00000000-0000-4000-8000-00000000000d'' learnerTwo courseOne
              ''video.play'' (Some ''engaged'') 7"

section \<open>Properties of the classifier\<close>

lemma startsWith_append: "startsWith s (p @ q) \<Longrightarrow> startsWith s p"
  by (induction s p rule: startsWith.induct) auto

lemma toLowerCase_mixed: "toLowerCase ''Lesson.Locked_Click'' = ''lesson.locked_click''"
  by (simp add: toLowerCase_def toLowerChar_def flip: of_char_eq_iff [where 'a = nat])

lemma toLowerCase_lower: "toLowerCase ''quiz.pass'' = ''quiz.pass''"
  by (simp add: toLowerCase_def toLowerChar_def)

lemma ex_dropWhile: "(\<exists>x\<in>set (dropWhile P s). \<not> P x) \<longleftrightarrow> (\<exists>x\<in>set s. \<not> P x)"
  by (induction s) auto

lemma trim_nonempty_iff: "trim s \<noteq> [] \<longleftrightarrow> (\<exists>c\<in>set s. \<not> isWhiteSpace c)"
proof -
  have "trim s \<noteq> [] \<longleftrightarrow> (\<exists>x\<in>set (rev (dropWhile isWhiteSpace s)). \<not> isWhiteSpace x)"
    by (simp add: trim_def)
  also have "\<dots> \<longleftrightarrow> (\<exists>x\<in>set (dropWhile isWhiteSpace s). \<not> isWhiteSpace x)"
    by simp
  also have "\<dots> \<longleftrightarrow> (\<exists>c\<in>set s. \<not> isWhiteSpace c)"
    by (rule ex_dropWhile)
  finally show ?thesis .
qed

lemma buildReason_verbatim:
  "pl = Some (JsonObject props) \<Longrightarrow> map_of props ''reason'' = Some (JsonString possible) \<Longrightarrow>
   \<exists>c\<in>set possible. \<not> isWhiteSpace c \<Longrightarrow> buildReason et pl fb = possible"
  by (simp add: buildReason_def trim_nonempty_iff)

lemma buildReason_fallback:
  "\<nexists>props possible. pl = Some (JsonObject props) \<and>
      map_of props ''reason'' = Some (JsonString possible) \<and>
      (\<exists>c\<in>set possible. \<not> isWhiteSpace c) \<Longrightarrow>
   buildReason et pl fb = fb @ '' ('' @ et @ '')''"
  by (auto simp: buildReason_def trim_nonempty_iff split: option.splits JsonValue.splits)

lemma buildReason_nonempty: "buildReason et pl fb \<noteq> []"
  by (auto simp: buildReason_def trim_def split: option.splits JsonValue.splits)

lemma classify_reason_shape:
  assumes "derivedStatus_c (classifyEvent et pl) = Some status"
  shows "statusReason_c (classifyEvent et pl) =
           Some (buildReason et pl
             (if status = ''attention_drift'' then ''Idle or pause pattern detected''
              else if status = ''content_friction'' then ''Learner signaled friction''
              else ''Learner interacting with content''))"
  using assms by (auto simp: classifyEvent_def Let_def split: if_splits)

text \<open>
  C1. An event type whose lower-cased form starts with one of the attention-drift prefixes is
  classified \<open>attention_drift\<close>, whatever the other two groups would say. An event type
  starting with \<open>lesson.locked_click\<close> also matches the engaged prefix \<open>lesson.\<close>, and is
  classified \<open>attention_drift\<close> all the same.
\<close>

theorem classifyEvent_attention_first:
  "(list_ex (\<lambda>prefix. startsWith (toLowerCase et) prefix) ATTENTION_EVENT_PREFIXES \<longrightarrow>
      derivedStatus_c (classifyEvent et pl) = Some ''attention_drift'') \<and>
   (startsWith (toLowerCase et) ''lesson.locked_click'' \<longrightarrow>
      list_ex (\<lambda>prefix. startsWith (toLowerCase et) prefix) VIDEO_EVENT_PREFIXES \<and>
      derivedStatus_c (classifyEvent et pl) = Some ''attention_drift'')"
proof (intro conjI impI)
  assume "list_ex (\<lambda>prefix. startsWith (toLowerCase et) prefix) ATTENTION_EVENT_PREFIXES"
  then show "derivedStatus_c (classifyEvent et pl) = Some ''attention_drift''"
    by (simp add: classifyEvent_def Let_def)
next
  assume a: "startsWith (toLowerCase et) ''lesson.locked_click''"
  have "startsWith (toLowerCase et) (''lesson.'' @ ''locked_click'')"
    using a by simp
  then have "startsWith (toLowerCase et) ''lesson.''"
    by (rule startsWith_append)
  then show "list_ex (\<lambda>prefix. startsWith (toLowerCase et) prefix) VIDEO_EVENT_PREFIXES"
    by (simp add: VIDEO_EVENT_PREFIXES_def)
next
  assume a: "startsWith (toLowerCase et) ''lesson.locked_click''"
  then have "list_ex (\<lambda>prefix. startsWith (toLowerCase et) prefix) ATTENTION_EVENT_PREFIXES"
    by (simp add: ATTENTION_EVENT_PREFIXES_def)
  then show "derivedStatus_c (classifyEvent et pl) = Some ''attention_drift''"
    by (simp add: classifyEvent_def Let_def)
qed

text \<open>The mixed-case event type \<open>Lesson.Locked_Click\<close> is classified \<open>attention_drift\<close>.\<close>

theorem classifyEvent_attention_first_witness:
  "startsWith (toLowerCase ''Lesson.Locked_Click'') ''lesson.locked_click'' \<and>
   derivedStatus_c (classifyEvent ''Lesson.Locked_Click'' None) = Some ''attention_drift''"
  using classifyEvent_attention_first [of "''Lesson.Locked_Click''" None]
  by (simp add: toLowerCase_mixed)

text \<open>
  C5, as the code has it. For an event that a prefix group matched: when the payload is an
  object whose \<open>reason\<close> is a string with at least one character that is not white
  space, \<open>statusReason\<close> is that string, unchanged; in every other case \<open>statusReason\<close> is
  the matched group's fallback phrase followed by the original event type in parentheses.
\<close>

theorem classifyEvent_reason:
  assumes "derivedStatus_c (classifyEvent et pl) = Some status"
  shows "(\<forall>props possible.
            pl = Some (JsonObject props) \<and> map_of props ''reason'' = Some (JsonString possible) \<and>
            (\<exists>c\<in>set possible. \<not> isWhiteSpace c) \<longrightarrow>
            statusReason_c (classifyEvent et pl) = Some possible) \<and>
         ((\<nexists>props possible.
            pl = Some (JsonObject props) \<and> map_of props ''reason'' = Some (JsonString possible) \<and>
            (\<exists>c\<in>set possible. \<not> isWhiteSpace c)) \<longrightarrow>
            statusReason_c (classifyEvent et pl) =
              Some ((if status = ''attention_drift'' then ''Idle or pause pattern detected''
                     else if status = ''content_friction'' then ''Learner signaled friction''
                     else ''Learner interacting with content'') @ '' ('' @ et @ '')''))"
proof (intro conjI allI impI)
  fix props possible
  assume "pl = Some (JsonObject props) \<and> map_of props ''reason'' = Some (JsonString possible) \<and>
            (\<exists>c\<in>set possible. \<not> isWhiteSpace c)"
  then show "statusReason_c (classifyEvent et pl) = Some possible"
    using classify_reason_shape [OF assms] buildReason_verbatim by simp
next
  assume "\<nexists>props possible.
            pl = Some (JsonObject props) \<and> map_of props ''reason'' = Some (JsonString possible) \<and>
            (\<exists>c\<in>set possible. \<not> isWhiteSpace c)"
  then show "statusReason_c (classifyEvent et pl) =
              Some ((if status = ''attention_drift'' then ''Idle or pause pattern detected''
                     else if status = ''content_friction'' then ''Learner signaled friction''
                     else ''Learner interacting with content'') @ '' ('' @ et @ '')'')"
    using classify_reason_shape [OF assms] buildReason_fallback [of pl] by simp
qed

text \<open>A failed quiz that carries the reason \<open>Failed twice\<close> is stored with that reason.\<close>

theorem classifyEvent_reason_witness:
  "derivedStatus_c (classifyEvent ''quiz.fail''
      (Some (JsonObject [(''reason'', JsonString ''Failed twice'')]))) = Some ''content_friction'' \<and>
   statusReason_c (classifyEvent ''quiz.fail''
      (Some (JsonObject [(''reason'', JsonString ''Failed twice'')]))) = Some ''Failed twice''"
proof -
  have d: "derivedStatus_c (classifyEvent ''quiz.fail''
      (Some (JsonObject [(''reason'', JsonString ''Failed twice'')]))) = Some ''content_friction''"
    by (simp add: classifyEvent_def Let_def toLowerCase_def toLowerChar_def
         ATTENTION_EVENT_PREFIXES_def FRICTION_EVENT_PREFIXES_def)
  have w: "\<exists>c\<in>set ''Failed twice''. \<not> isWhiteSpace c"
    by (simp add: isWhiteSpace_def)
  show ?thesis using classifyEvent_reason [OF d] w d by simp
qed

text \<open>
  A reason that is a single space is a non-empty string, yet the stored reason is the
  synthesized fallback and not the space.
\<close>

theorem classifyEvent_blank_reason_falls_back:
  "statusReason_c (classifyEvent ''video.pause''
      (Some (JsonObject [(''reason'', JsonString '' '')])))
     = Some ''Idle or pause pattern detected (video.pause)'' \<and>
   '' '' \<noteq> []"
  by (simp add: classifyEvent_def Let_def toLowerCase_def toLowerChar_def
       ATTENTION_EVENT_PREFIXES_def buildReason_def trim_def isWhiteSpace_def)

text \<open>
  C8. An event type whose lower-cased form starts with none of the prefixes of the three
  groups gets a result with neither \<open>derivedStatus\<close> nor \<open>statusReason\<close>.
\<close>

theorem classifyEvent_no_match:
  "\<forall>prefix \<in> set (ATTENTION_EVENT_PREFIXES @ FRICTION_EVENT_PREFIXES @ VIDEO_EVENT_PREFIXES).
      \<not> startsWith (toLowerCase et) prefix \<Longrightarrow>
   classifyEvent et pl = \<lparr>derivedStatus_c = None, statusReason_c = None\<rparr>"
  by (simp add: classifyEvent_def Let_def list_ex_iff)

text \<open>The event type \<open>quiz.pass\<close> matches no prefix and stays unclassified.\<close>

theorem classifyEvent_no_match_witness:
  "classifyEvent ''quiz.pass'' (Some (JsonObject [(''reason'', JsonString ''Passed'')]))
     = \<lparr>derivedStatus_c = None, statusReason_c = None\<rparr>"
  by (rule classifyEvent_no_match)
     (simp add: toLowerCase_lower ATTENTION_EVENT_PREFIXES_def FRICTION_EVENT_PREFIXES_def
        VIDEO_EVENT_PREFIXES_def)

text \<open>
  C10. The two fields of the classifier's result come together: \<open>derivedStatus\<close> is absent
  exactly when \<open>statusReason\<close> is; a \<open>derivedStatus\<close> that is present is one of
  \<open>attention_drift\<close>, \<open>content_friction\<close> and \<open>engaged\<close>, and a \<open>statusReason\<close> that is
  present is not the empty string.
\<close>

theorem classifyEvent_fields_paired:
  "(derivedStatus_c (classifyEvent et pl) = None \<longleftrightarrow> statusReason_c (classifyEvent et pl) = None) \<and>
   (\<forall>s. derivedStatus_c (classifyEvent et pl) = Some s \<longrightarrow>
      s \<in> {''attention_drift'', ''content_friction'', ''engaged''}) \<and>
   (\<forall>r. statusReason_c (classifyEvent et pl) = Some r \<longrightarrow> r \<noteq> [])"
  using buildReason_nonempty by (auto simp: classifyEvent_def Let_def)

text \<open>A resumed video is \<open>engaged\<close>, with the synthesized reason.\<close>

theorem classifyEvent_fields_paired_witness:
  "derivedStatus_c (classifyEvent ''video.resume'' None) = Some ''engaged'' \<and>
   statusReason_c (classifyEvent ''video.resume'' None)
     = Some ''Learner interacting with content (video.resume)'' \<and>
   ''Learner interacting with content (video.resume)'' \<noteq> []"
  using classifyEvent_fields_paired [of "''video.resume''" None]
  by (simp add: classifyEvent_def Let_def toLowerCase_def toLowerChar_def buildReason_def
       ATTENTION_EVENT_PREFIXES_def FRICTION_EVENT_PREFIXES_def VIDEO_EVENT_PREFIXES_def)

section \<open>Properties of sorting and aggregation\<close>

lemma set_insertBy: "set (insertBy cmp x ys) = insert x (set ys)"
  by (induction ys) auto

lemma set_array_sort: "set (array_sort cmp xs) = set xs"
  by (induction xs) (auto simp: array_sort_def set_insertBy)

lemma length_insertBy: "length (insertBy cmp x ys) = Suc (length ys)"
  by (induction ys) auto

lemma length_array_sort: "length (array_sort cmp xs) = length xs"
  by (induction xs) (auto simp: array_sort_def length_insertBy)

text \<open>
  A comparator that is total and transitive on the elements at hand, read through the
  order \<open>le\<close> it stands for, yields a list sorted in that order.
\<close>

lemma sorted_wrt_insertBy:
  assumes tot: "\<And>a b. a \<in> S \<Longrightarrow> b \<in> S \<Longrightarrow> \<not> cmp a b \<le> 0 \<Longrightarrow> le b a"
    and le: "\<And>a b. a \<in> S \<Longrightarrow> b \<in> S \<Longrightarrow> cmp a b \<le> 0 \<Longrightarrow> le a b"
    and trans: "\<And>a b c. a \<in> S \<Longrightarrow> b \<in> S \<Longrightarrow> c \<in> S \<Longrightarrow> le a b \<Longrightarrow> le b c \<Longrightarrow> le a c"
    and "x \<in> S" "set ys \<subseteq> S" "sorted_wrt le ys"
  shows "sorted_wrt le (insertBy cmp x ys)"
  using assms(4-)
proof (induction ys)
  case Nil
  then show ?case by simp
next
  case (Cons y ys)
  show ?case
  proof (cases "cmp x y \<le> 0")
    case True
    then have xy: "le x y" using le Cons.prems by simp
    have "\<forall>z\<in>set ys. le x z"
    proof
      fix z assume z: "z \<in> set ys"
      then have "le y z" using Cons.prems by simp
      then show "le x z" using trans [of x y z] xy z Cons.prems by auto
    qed
    then show ?thesis using True xy Cons.prems by simp
  next
    case False
    then have yx: "le y x" using tot Cons.prems by simp
    have "sorted_wrt le (insertBy cmp x ys)" using Cons by simp
    moreover have "\<forall>z\<in>set (insertBy cmp x ys). le y z"
      using yx Cons.prems by (auto simp: set_insertBy)
    ultimately show ?thesis using False by simp
  qed
qed

lemma sorted_wrt_array_sort:
  assumes tot: "\<And>a b. a \<in> S \<Longrightarrow> b \<in> S \<Longrightarrow> \<not> cmp a b \<le> 0 \<Longrightarrow> le b a"
    and le: "\<And>a b. a \<in> S \<Longrightarrow> b \<in> S \<Longrightarrow> cmp a b \<le> 0 \<Longrightarrow> le a b"
    and trans: "\<And>a b c. a \<in> S \<Longrightarrow> b \<in> S \<Longrightarrow> c \<in> S \<Longrightarrow> le a b \<Longrightarrow> le b c \<Longrightarrow> le a c"
    and "set xs \<subseteq> S"
  shows "sorted_wrt le (array_sort cmp xs)"
  using assms(4)
proof (induction xs)
  case Nil
  then show ?case by (simp add: array_sort_def)
next
  case (Cons x xs)
  have x: "x \<in> S" using Cons.prems by simp
  have sub: "set (array_sort cmp xs) \<subseteq> S" using Cons.prems by (simp add: set_array_sort)
  have ih: "sorted_wrt le (array_sort cmp xs)" using Cons by simp
  have "sorted_wrt le (insertBy cmp x (array_sort cmp xs))"
    by (rule sorted_wrt_insertBy [where S = S, OF tot le trans x sub ih])
  then show ?case by (simp add: array_sort_def)
qed

lemma sorted_by_createdAt:
  "sorted_wrt (\<lambda>a b. createdAt b \<le> createdAt a)
     (array_sort (\<lambda>a b. createdAt b - createdAt a) xs)"
  by (rule sorted_wrt_array_sort [where S = UNIV]) auto

lemma find_sorted_first:
  "sorted_wrt le xs \<Longrightarrow> find P xs = Some r \<Longrightarrow> e \<in> set xs \<Longrightarrow> P e \<Longrightarrow> e = r \<or> le r e"
  by (induction xs) (auto split: if_splits)

lemma find_Some_mem: "find P xs = Some r \<Longrightarrow> r \<in> set xs \<and> P r"
  by (induction xs) (auto split: if_splits)

text \<open>
  What \<open>sorted.find(P)\<close> picks from the sorted window: an event of the window that satisfies
  \<open>P\<close> and is at least as recent as every other event that does.
\<close>

lemma find_chosen:
  assumes "e \<in> set evs" "P e"
  shows "\<exists>r. find P (array_sort (\<lambda>a b. createdAt b - createdAt a) evs) = Some r \<and>
             r \<in> set evs \<and> P r \<and> (\<forall>x\<in>set evs. P x \<longrightarrow> createdAt x \<le> createdAt r)"
proof -
  let ?s = "array_sort (\<lambda>a b. createdAt b - createdAt a) evs"
  have "e \<in> set ?s" using assms by (simp add: set_array_sort)
  then have "find P ?s \<noteq> None" using assms by (auto simp: find_None_iff)
  then obtain r where r: "find P ?s = Some r" by auto
  have mem: "r \<in> set evs \<and> P r" using find_Some_mem [OF r] by (simp add: set_array_sort)
  have "\<forall>x\<in>set evs. P x \<longrightarrow> createdAt x \<le> createdAt r"
  proof (intro ballI impI)
    fix x assume "x \<in> set evs" "P x"
    then have "x = r \<or> createdAt x \<le> createdAt r"
      using find_sorted_first [OF sorted_by_createdAt r, of x] by (simp add: set_array_sort)
    then show "createdAt x \<le> createdAt r" by auto
  qed
  then show ?thesis using r mem by blast
qed

lemma find_absent:
  "\<forall>x\<in>set evs. \<not> P x \<Longrightarrow> find P (array_sort cmp evs) = None"
  by (simp add: find_None_iff set_array_sort)

lemma derive_friction:
  assumes "e \<in> set evs" "derivedStatus e = Some ''content_friction''"
  shows "\<exists>r. deriveStatusFromEvents evs = Some r \<and> r \<in> set evs \<and>
             derivedStatus r = Some ''content_friction'' \<and>
             (\<forall>x\<in>set evs. derivedStatus x = Some ''content_friction'' \<longrightarrow>
                createdAt x \<le> createdAt r)"
proof -
  obtain r where r: "find (\<lambda>event. derivedStatus event = Some ''content_friction'')
        (array_sort (\<lambda>a b. createdAt b - createdAt a) evs) = Some r"
     and m: "r \<in> set evs" "derivedStatus r = Some ''content_friction''"
       "\<forall>x\<in>set evs. derivedStatus x = Some ''content_friction'' \<longrightarrow> createdAt x \<le> createdAt r"
    using find_chosen [OF assms(1), of "\<lambda>event. derivedStatus event = Some ''content_friction''"]
      assms(2)
    by blast
  have ne: "evs \<noteq> []" using assms by auto
  have "r\<lparr>derivedStatus := Some ''content_friction''\<rparr> = r" using m(2) by simp
  then have "deriveStatusFromEvents evs = Some r"
    using r ne by (simp add: deriveStatusFromEvents_def Let_def)
  then show ?thesis using m by blast
qed

lemma derive_attention:
  assumes "e \<in> set evs" "derivedStatus e = Some ''attention_drift''"
    and nf: "\<forall>x\<in>set evs. derivedStatus x \<noteq> Some ''content_friction''"
  shows "\<exists>r. deriveStatusFromEvents evs = Some r \<and> r \<in> set evs \<and>
             derivedStatus r = Some ''attention_drift'' \<and>
             (\<forall>x\<in>set evs. derivedStatus x = Some ''attention_drift'' \<longrightarrow>
                createdAt x \<le> createdAt r)"
proof -
  let ?s = "array_sort (\<lambda>a b. createdAt b - createdAt a) evs"
  obtain r where r: "find (\<lambda>event. derivedStatus event = Some ''attention_drift'') ?s = Some r"
     and m: "r \<in> set evs" "derivedStatus r = Some ''attention_drift''"
       "\<forall>x\<in>set evs. derivedStatus x = Some ''attention_drift'' \<longrightarrow> createdAt x \<le> createdAt r"
    using find_chosen [OF assms(1), of "\<lambda>event. derivedStatus event = Some ''attention_drift''"]
      assms(2)
    by blast
  have f: "find (\<lambda>event. derivedStatus event = Some ''content_friction'') ?s = None"
    using nf by (intro find_absent) simp
  have ne: "evs \<noteq> []" using assms by auto
  have "r\<lparr>derivedStatus := Some ''attention_drift''\<rparr> = r" using m(2) by simp
  then have "deriveStatusFromEvents evs = Some r"
    using r f ne by (simp add: deriveStatusFromEvents_def Let_def)
  then show ?thesis using m by blast
qed

lemma derive_engaged:
  assumes "e \<in> set evs" "derivedStatus e = Some ''engaged''"
    and nf: "\<forall>x\<in>set evs. derivedStatus x \<noteq> Some ''content_friction''"
    and na: "\<forall>x\<in>set evs. derivedStatus x \<noteq> Some ''attention_drift''"
  shows "\<exists>r. deriveStatusFromEvents evs = Some r \<and> r \<in> set evs \<and>
             derivedStatus r = Some ''engaged'' \<and>
             (\<forall>x\<in>set evs. derivedStatus x = Some ''engaged'' \<longrightarrow> createdAt x \<le> createdAt r)"
proof -
  let ?s = "array_sort (\<lambda>a b. createdAt b - createdAt a) evs"
  obtain r where r: "find (\<lambda>event. derivedStatus event = Some ''engaged'') ?s = Some r"
     and m: "r \<in> set evs" "derivedStatus r = Some ''engaged''"
       "\<forall>x\<in>set evs. derivedStatus x = Some ''engaged'' \<longrightarrow> createdAt x \<le> createdAt r"
    using find_chosen [OF assms(1), of "\<lambda>event. derivedStatus event = Some ''engaged''"] assms(2)
    by blast
  have f: "find (\<lambda>event. derivedStatus event = Some ''content_friction'') ?s = None"
    using nf by (intro find_absent) simp
  have a: "find (\<lambda>event. derivedStatus event = Some ''attention_drift'') ?s = None"
    using na by (intro find_absent) simp
  have ne: "evs \<noteq> []" using assms by auto
  have "r\<lparr>derivedStatus := Some ''engaged''\<rparr> = r" using m(2) by simp
  then have "deriveStatusFromEvents evs = Some r"
    using r f a ne by (simp add: deriveStatusFromEvents_def Let_def)
  then show ?thesis using m by blast
qed

lemma derive_fallback:
  assumes ne: "evs \<noteq> []"
    and nf: "\<forall>x\<in>set evs. derivedStatus x \<noteq> Some ''content_friction''"
    and na: "\<forall>x\<in>set evs. derivedStatus x \<noteq> Some ''attention_drift''"
    and ng: "\<forall>x\<in>set evs. derivedStatus x \<noteq> Some ''engaged''"
  shows "\<exists>r. deriveStatusFromEvents evs = Some r \<and> r \<in> set evs \<and>
             (\<forall>x\<in>set evs. createdAt x \<le> createdAt r)"
proof -
  let ?s = "array_sort (\<lambda>a b. createdAt b - createdAt a) evs"
  have "length ?s = length evs" by (rule length_array_sort)
  then obtain r rest where s: "?s = r # rest" using ne by (cases ?s) auto
  have f: "find (\<lambda>event. derivedStatus event = Some ''content_friction'') ?s = None"
    using nf by (intro find_absent) simp
  have a: "find (\<lambda>event. derivedStatus event = Some ''attention_drift'') ?s = None"
    using na by (intro find_absent) simp
  have g: "find (\<lambda>event. derivedStatus event = Some ''engaged'') ?s = None"
    using ng by (intro find_absent) simp
  have d: "deriveStatusFromEvents evs = Some r"
    using ne f a g s by (simp add: deriveStatusFromEvents_def Let_def)
  have set_eq: "set evs = insert r (set rest)"
    using set_array_sort [of "\<lambda>a b. createdAt b - createdAt a" evs] s by simp
  have "sorted_wrt (\<lambda>a b. createdAt b \<le> createdAt a) (r # rest)"
    using sorted_by_createdAt [of evs] s by simp
  then have "\<forall>x\<in>set rest. createdAt x \<le> createdAt r" by simp
  then have "\<forall>x\<in>set evs. createdAt x \<le> createdAt r" using set_eq by auto
  then show ?thesis using d set_eq by blast
qed

text \<open>
  C3. In a window that holds a \<open>content_friction\<close> event \<open>f\<close> and a strictly more recent
  \<open>engaged\<close> event \<open>g\<close>, the aggregator returns a \<open>content_friction\<close> event of the window,
  unchanged, and not \<open>g\<close>: the most recent \<open>content_friction\<close> event, hence \<open>f\<close> itself when
  \<open>f\<close> is the only one. The order of priority is \<open>content_friction\<close>, then
  \<open>attention_drift\<close>, then \<open>engaged\<close>: the result carries the first of these statuses that
  the window holds.
\<close>

theorem deriveStatus_friction_outranks_engaged:
  "(f \<in> set evs \<and> derivedStatus f = Some ''content_friction'' \<and>
    g \<in> set evs \<and> derivedStatus g = Some ''engaged'' \<and> createdAt f < createdAt g \<longrightarrow>
      (\<exists>r. deriveStatusFromEvents evs = Some r \<and> r \<in> set evs \<and> r \<noteq> g \<and>
           derivedStatus r = Some ''content_friction'' \<and>
           (\<forall>x\<in>set evs. derivedStatus x = Some ''content_friction'' \<longrightarrow>
              createdAt x \<le> createdAt r) \<and>
           ((\<forall>x\<in>set evs. derivedStatus x = Some ''content_friction'' \<longrightarrow> x = f) \<longrightarrow> r = f))) \<and>
   ((\<exists>x\<in>set evs. derivedStatus x = Some ''content_friction'') \<longrightarrow>
      (\<exists>r. deriveStatusFromEvents evs = Some r \<and> derivedStatus r = Some ''content_friction'')) \<and>
   ((\<forall>x\<in>set evs. derivedStatus x \<noteq> Some ''content_friction'') \<and>
    (\<exists>x\<in>set evs. derivedStatus x = Some ''attention_drift'') \<longrightarrow>
      (\<exists>r. deriveStatusFromEvents evs = Some r \<and> derivedStatus r = Some ''attention_drift'')) \<and>
   ((\<forall>x\<in>set evs. derivedStatus x \<noteq> Some ''content_friction'') \<and>
    (\<forall>x\<in>set evs. derivedStatus x \<noteq> Some ''attention_drift'') \<and>
    (\<exists>x\<in>set evs. derivedStatus x = Some ''engaged'') \<longrightarrow>
      (\<exists>r. deriveStatusFromEvents evs = Some r \<and> derivedStatus r = Some ''engaged''))"
proof (intro conjI impI)
  assume a: "f \<in> set evs \<and> derivedStatus f = Some ''content_friction'' \<and>
    g \<in> set evs \<and> derivedStatus g = Some ''engaged'' \<and> createdAt f < createdAt g"
  then obtain r where r: "deriveStatusFromEvents evs = Some r" "r \<in> set evs"
      "derivedStatus r = Some ''content_friction''"
      "\<forall>x\<in>set evs. derivedStatus x = Some ''content_friction'' \<longrightarrow> createdAt x \<le> createdAt r"
    using derive_friction [of f evs] by blast
  have "r \<noteq> g" using r(3) a by auto
  then show "\<exists>r. deriveStatusFromEvents evs = Some r \<and> r \<in> set evs \<and> r \<noteq> g \<and>
           derivedStatus r = Some ''content_friction'' \<and>
           (\<forall>x\<in>set evs. derivedStatus x = Some ''content_friction'' \<longrightarrow>
              createdAt x \<le> createdAt r) \<and>
           ((\<forall>x\<in>set evs. derivedStatus x = Some ''content_friction'' \<longrightarrow> x = f) \<longrightarrow> r = f)"
    using r by blast
next
  assume "\<exists>x\<in>set evs. derivedStatus x = Some ''content_friction''"
  then show "\<exists>r. deriveStatusFromEvents evs = Some r \<and> derivedStatus r = Some ''content_friction''"
    using derive_friction [of _ evs] by blast
next
  assume "(\<forall>x\<in>set evs. derivedStatus x \<noteq> Some ''content_friction'') \<and>
    (\<exists>x\<in>set evs. derivedStatus x = Some ''attention_drift'')"
  then show "\<exists>r. deriveStatusFromEvents evs = Some r \<and> derivedStatus r = Some ''attention_drift''"
    using derive_attention [of _ evs] by blast
next
  assume "(\<forall>x\<in>set evs. derivedStatus x \<noteq> Some ''content_friction'') \<and>
    (\<forall>x\<in>set evs. derivedStatus x \<noteq> Some ''attention_drift'') \<and>
    (\<exists>x\<in>set evs. derivedStatus x = Some ''engaged'')"
  then show "\<exists>r. deriveStatusFromEvents evs = Some r \<and> derivedStatus r = Some ''engaged''"
    using derive_engaged [of _ evs] by blast
qed

text \<open>A failed quiz at 09:00 outranks a video played at 09:05.\<close>

theorem deriveStatus_friction_outranks_engaged_witness:
  "deriveStatusFromEvents
     [statusRow ''e2'' ''video.play'' (Some ''engaged'') 905,
      statusRow ''e1'' ''quiz.fail'' (Some ''content_friction'') 900]
   = Some (statusRow ''e1'' ''quiz.fail'' (Some ''content_friction'') 900)"
  using deriveStatus_friction_outranks_engaged
    [of "statusRow ''e1'' ''quiz.fail'' (Some ''content_friction'') 900"
        "[statusRow ''e2'' ''video.play'' (Some ''engaged'') 905,
          statusRow ''e1'' ''quiz.fail'' (Some ''content_friction'') 900]"
        "statusRow ''e2'' ''video.play'' (Some ''engaged'') 905"]
  by (auto simp: statusRow_def selectRow_def storedRow_def)

text \<open>
  C6. In a window with no \<open>content_friction\<close> event that holds two \<open>attention_drift\<close> events
  \<open>a1\<close> and \<open>a2\<close>, \<open>a2\<close> strictly more recent, the aggregator returns an \<open>attention_drift\<close>
  event of the window that is at least as recent as every other one and is not \<open>a1\<close>; it is
  \<open>a2\<close> when the window holds no third \<open>attention_drift\<close> event.
\<close>

theorem deriveStatus_recent_attention:
  assumes a1: "a1 \<in> set evs" "derivedStatus a1 = Some ''attention_drift''"
    and a2: "a2 \<in> set evs" "derivedStatus a2 = Some ''attention_drift''"
    and later: "createdAt a1 < createdAt a2"
    and nf: "\<forall>x\<in>set evs. derivedStatus x \<noteq> Some ''content_friction''"
  shows "\<exists>r. deriveStatusFromEvents evs = Some r \<and> r \<in> set evs \<and> r \<noteq> a1 \<and>
             derivedStatus r = Some ''attention_drift'' \<and>
             (\<forall>x\<in>set evs. derivedStatus x = Some ''attention_drift'' \<longrightarrow>
                createdAt x \<le> createdAt r) \<and>
             ((\<forall>x\<in>set evs. derivedStatus x = Some ''attention_drift'' \<longrightarrow> x = a1 \<or> x = a2)
                \<longrightarrow> r = a2)"
proof -
  obtain r where r: "deriveStatusFromEvents evs = Some r" "r \<in> set evs"
      "derivedStatus r = Some ''attention_drift''"
      "\<forall>x\<in>set evs. derivedStatus x = Some ''attention_drift'' \<longrightarrow> createdAt x \<le> createdAt r"
    using derive_attention [OF a1 nf] by blast
  have "createdAt a2 \<le> createdAt r" using r(4) a2 by blast
  then have "r \<noteq> a1" using later by auto
  then show ?thesis using r by blast
qed

text \<open>
  Of a pause at 09:05 and an idle period at 09:10, with a video resumed in between, the idle
  period is returned.
\<close>

theorem deriveStatus_recent_attention_witness:
  "deriveStatusFromEvents
     [statusRow ''e1'' ''video.pause'' (Some ''attention_drift'') 905,
      statusRow ''e2'' ''video.resume'' (Some ''engaged'') 907,
      statusRow ''e3'' ''idle.detected'' (Some ''attention_drift'') 910]
   = Some (statusRow ''e3'' ''idle.detected'' (Some ''attention_drift'') 910)"
  using deriveStatus_recent_attention
    [of "statusRow ''e1'' ''video.pause'' (Some ''attention_drift'') 905"
        "[statusRow ''e1'' ''video.pause'' (Some ''attention_drift'') 905,
          statusRow ''e2'' ''video.resume'' (Some ''engaged'') 907,
          statusRow ''e3'' ''idle.detected'' (Some ''attention_drift'') 910]"
        "statusRow ''e3'' ''idle.detected'' (Some ''attention_drift'') 910"]
  by (auto simp: statusRow_def selectRow_def storedRow_def)

text \<open>
  C7. When the window holds an event whose status is \<open>engaged\<close>, \<open>attention_drift\<close> or
  \<open>content_friction\<close>, the event returned has a status: no unclassified event is selected.
  When the window is not empty and every event in it is unclassified, the event returned is
  an unclassified event of the window that is at least as recent as all the others.
\<close>

theorem deriveStatus_unclassified_last:
  "((\<exists>x\<in>set evs. derivedStatus x = Some ''engaged'' \<or>
                   derivedStatus x = Some ''attention_drift'' \<or>
                   derivedStatus x = Some ''content_friction'') \<longrightarrow>
      (\<exists>r. deriveStatusFromEvents evs = Some r \<and> r \<in> set evs \<and> derivedStatus r \<noteq> None)) \<and>
   (evs \<noteq> [] \<and> (\<forall>x\<in>set evs. derivedStatus x = None) \<longrightarrow>
      (\<exists>r. deriveStatusFromEvents evs = Some r \<and> r \<in> set evs \<and> derivedStatus r = None \<and>
           (\<forall>x\<in>set evs. createdAt x \<le> createdAt r)))"
proof (intro conjI impI)
  assume "\<exists>x\<in>set evs. derivedStatus x = Some ''engaged'' \<or>
                   derivedStatus x = Some ''attention_drift'' \<or>
                   derivedStatus x = Some ''content_friction''"
  then obtain x where x: "x \<in> set evs"
    "derivedStatus x = Some ''engaged'' \<or> derivedStatus x = Some ''attention_drift'' \<or>
     derivedStatus x = Some ''content_friction''"
    by blast
  show "\<exists>r. deriveStatusFromEvents evs = Some r \<and> r \<in> set evs \<and> derivedStatus r \<noteq> None"
  proof (cases "\<exists>y\<in>set evs. derivedStatus y = Some ''content_friction''")
    case True
    then show ?thesis using derive_friction [of _ evs] by fastforce
  next
    case nf: False
    show ?thesis
    proof (cases "\<exists>y\<in>set evs. derivedStatus y = Some ''attention_drift''")
      case True
      then obtain y where "y \<in> set evs" "derivedStatus y = Some ''attention_drift''" by blast
      then show ?thesis using derive_attention [of y evs] nf by fastforce
    next
      case na: False
      then have "derivedStatus x = Some ''engaged''" using x nf by blast
      then show ?thesis using derive_engaged [of x evs] x(1) nf na by fastforce
    qed
  qed
next
  assume a: "evs \<noteq> [] \<and> (\<forall>x\<in>set evs. derivedStatus x = None)"
  then obtain r where r: "deriveStatusFromEvents evs = Some r" "r \<in> set evs"
     "\<forall>x\<in>set evs. createdAt x \<le> createdAt r"
    using derive_fallback [of evs] by auto
  then show "\<exists>r. deriveStatusFromEvents evs = Some r \<and> r \<in> set evs \<and> derivedStatus r = None \<and>
           (\<forall>x\<in>set evs. createdAt x \<le> createdAt r)"
    using a by blast
qed

text \<open>
  An unclassified event at 09:20 loses to a video played at 09:00; two unclassified events
  alone give the later one.
\<close>

theorem deriveStatus_unclassified_last_witness:
  "deriveStatusFromEvents
     [statusRow ''e1'' ''video.play'' (Some ''engaged'') 900,
      statusRow ''e2'' ''quiz.pass'' None 920]
   = Some (statusRow ''e1'' ''video.play'' (Some ''engaged'') 900) \<and>
   deriveStatusFromEvents
     [statusRow ''e3'' ''quiz.pass'' None 900,
      statusRow ''e4'' ''quiz.start'' None 920]
   = Some (statusRow ''e4'' ''quiz.start'' None 920)"
  using deriveStatus_unclassified_last
    [of "[statusRow ''e1'' ''video.play'' (Some ''engaged'') 900,
          statusRow ''e2'' ''quiz.pass'' None 920]"]
    deriveStatus_unclassified_last
    [of "[statusRow ''e3'' ''quiz.pass'' None 900,
          statusRow ''e4'' ''quiz.start'' None 920]"]
  by (auto simp: statusRow_def selectRow_def storedRow_def)

section \<open>Properties of ingestion\<close>

text \<open>
  C2, as the code has it. \<open>recordActivityEvents\<close> hands one row per input event to
  \<open>createMany\<close>, and the row's \<open>createdAt\<close> is the event's client-supplied \<open>occurredAt\<close>
  when the event carries one; the server's clock is read for \<open>createdAt\<close> only when
  \<open>occurredAt\<close> is absent.
\<close>

theorem recordActivityEvents_createdAt:
  "length (recordActivityEvents clock uid evs) = length evs \<and>
   (\<forall>n < length evs.
      created_at (recordActivityEvents clock uid evs ! n) =
        (case occurredAt_i (evs ! n) of Some t \<Rightarrow> t | None \<Rightarrow> clock n))"
  by (auto simp: recordActivityEvents_def eventToRow_def Let_def nth_enumerate_eq)

text \<open>
  Of two events ingested when the server clock reads 5000, the one stamped 1000 by the client
  keeps 1000, and the unstamped one gets the server's reading.
\<close>

theorem recordActivityEvents_createdAt_witness:
  "created_at (recordActivityEvents (serverClock 5000) ''learner-1''
      [inputEvent ''video.pause'' (Some 1000), inputEvent ''video.resume'' None] ! 0) = 1000 \<and>
   created_at (recordActivityEvents (serverClock 5000) ''learner-1''
      [inputEvent ''video.pause'' (Some 1000), inputEvent ''video.resume'' None] ! 1) = 5001"
  using recordActivityEvents_createdAt [of "serverClock 5000" "''learner-1''"
      "[inputEvent ''video.pause'' (Some 1000), inputEvent ''video.resume'' None]"]
  by (simp add: inputEvent_def serverClock_def)

text \<open>
  An event that the client stamped 1000, ingested when the server clock reads 5000, is stored
  with \<open>createdAt\<close> 1000: the client's value and not the server's.
\<close>

theorem recordActivityEvents_createdAt_from_client:
  "map created_at (recordActivityEvents (serverClock 5000) ''learner-1''
      [inputEvent ''video.play'' (Some 1000)]) = [1000] \<and>
   serverClock 5000 0 = 5000"
  by (simp add: recordActivityEvents_def eventToRow_def inputEvent_def serverClock_def Let_def)

section \<open>Properties of the history\<close>

lemma mset_insertBy: "mset (insertBy cmp x ys) = add_mset x (mset ys)"
  by (induction ys) auto

lemma mset_array_sort: "mset (array_sort cmp xs) = mset xs"
  by (induction xs) (auto simp: array_sort_def mset_insertBy)

lemma array_sort_sorted:
  "sorted_wrt (\<lambda>a b. cmp a b \<le> 0) xs \<Longrightarrow> array_sort cmp xs = xs"
proof (induction xs)
  case Nil
  then show ?case by (simp add: array_sort_def)
next
  case (Cons x xs)
  then have "array_sort cmp xs = xs" by simp
  then have "array_sort cmp (x # xs) = insertBy cmp x xs" by (simp add: array_sort_def)
  also have "\<dots> = x # xs" using Cons.prems by (cases xs) auto
  finally show ?case .
qed

lemma sorted_wrt_selectRow:
  "sorted_wrt (\<lambda>a b. created_at b \<le> created_at a) rs \<Longrightarrow>
   sorted_wrt (\<lambda>a b. createdAt b \<le> createdAt a) (map selectRow rs)"
  by (simp add: sorted_wrt_map selectRow_def)

lemma sorted_by_created_at:
  "sorted_wrt (\<lambda>a b. created_at b \<le> created_at a)
     (array_sort (\<lambda>a b. created_at b - created_at a) xs)"
  by (rule sorted_wrt_array_sort [where S = UNIV]) auto

lemma history_rejected:
  "uuid uid = None \<or> uuid cid = None \<Longrightarrow>
   getLearnerHistory uuid plan table uid cid limit bf = Inl DatabaseError"
  by (auto simp: getLearnerHistory_def split: option.splits)

lemma history_accepted:
  "uuid uid = Some u \<Longrightarrow> uuid cid = Some c \<Longrightarrow>
   getLearnerHistory uuid plan table uid cid limit bf =
     Inr (map selectRow
           (take limit
             (array_sort (\<lambda>a b. created_at b - created_at a)
               (plan (filter (historyWhere u c bf) table)))))"
  by (simp add: getLearnerHistory_def)

lemma history_rows:
  assumes "uuid uid = Some u" "uuid cid = Some c"
    and p: "mset (plan (filter (historyWhere u c bf) table)) = mset (filter (historyWhere u c bf) table)"
  shows "\<exists>rows. getLearnerHistory uuid plan table uid cid limit bf = Inr rows \<and>
           sorted_wrt (\<lambda>a b. createdAt b \<le> createdAt a) rows \<and>
           set rows \<subseteq> selectRow ` {r \<in> set table. historyWhere u c bf r} \<and>
           length rows = min limit (length (filter (historyWhere u c bf) table))"
proof -
  let ?m = "filter (historyWhere u c bf) table"
  let ?s = "array_sort (\<lambda>a b. created_at b - created_at a) (plan ?m)"
  have r: "getLearnerHistory uuid plan table uid cid limit bf = Inr (map selectRow (take limit ?s))"
    using assms(1,2) by (simp add: getLearnerHistory_def)
  have "sorted_wrt (\<lambda>a b. created_at b \<le> created_at a) (take limit ?s)"
    by (intro sorted_wrt_take sorted_by_created_at)
  then have s: "sorted_wrt (\<lambda>a b. createdAt b \<le> createdAt a) (map selectRow (take limit ?s))"
    by (rule sorted_wrt_selectRow)
  have "set ?s = set ?m" using mset_eq_setD [OF p] by (simp add: set_array_sort)
  then have "set (take limit ?s) \<subseteq> {r \<in> set table. historyWhere u c bf r}"
    using set_take_subset [of limit ?s] by auto
  then have m: "set (map selectRow (take limit ?s)) \<subseteq> selectRow ` {r \<in> set table. historyWhere u c bf r}"
    by auto
  have "length ?s = length ?m" using mset_eq_length [OF p] by (simp add: length_array_sort)
  then have l: "length (map selectRow (take limit ?s)) = min limit (length ?m)"
    by (simp add: min.commute)
  show ?thesis using r s m l by blast
qed

text \<open>
  Every arrangement of the matching rows in which \<open>created_at\<close> never increases is what some
  plan returns.
\<close>

lemma history_any_arrangement:
  assumes "uuid uid = Some u" "uuid cid = Some c"
    and "sorted_wrt (\<lambda>a b. created_at b \<le> created_at a) rs"
  shows "getLearnerHistory uuid (\<lambda>m. rs) table uid cid limit bf = Inr (map selectRow (take limit rs))"
proof -
  have "sorted_wrt (\<lambda>a b. created_at b - created_at a \<le> 0) rs"
    using assms(3) by simp
  then have "array_sort (\<lambda>a b. created_at b - created_at a) rs = rs"
    by (rule array_sort_sorted)
  then show ?thesis using assms(1,2) by (simp add: getLearnerHistory_def)
qed

text \<open>
  The condition \<open>comparatorConsistent\<close> says that comparing as equal is transitive on the
  rows.
\<close>

lemma compareHistory_zero:
  "compareHistory a b = 0 \<longleftrightarrow>
     createdAt a = createdAt b \<and> (eventId a = [] \<or> eventId b = [] \<or> eventId a = eventId b)"
  by (auto simp: compareHistory_def Let_def)

lemma comparatorConsistent_iff:
  "comparatorConsistent h \<longleftrightarrow>
     (\<forall>a\<in>set h. \<forall>b\<in>set h. \<forall>c\<in>set h.
        compareHistory a b = 0 \<and> compareHistory b c = 0 \<longrightarrow> compareHistory a c = 0)"
  unfolding comparatorConsistent_def compareHistory_zero
  by (safe; metis)

lemma consistent_if_ids: "\<forall>r\<in>set h. eventId r \<noteq> [] \<Longrightarrow> comparatorConsistent h"
  by (auto simp: comparatorConsistent_def)

lemma sorted_history_events:
  assumes "comparatorConsistent h"
  shows "\<exists>s. sortedHistoryEvents h = Some s \<and> mset s = mset h \<and>
           sorted_wrt
             (\<lambda>a b. createdAt b < createdAt a \<or>
                    (createdAt a = createdAt b \<and>
                     (eventId a \<noteq> [] \<and> eventId b \<noteq> [] \<longrightarrow> eventId b \<le> eventId a)))
             (array_sort compareHistory h) \<and> s = array_sort compareHistory h"
proof -
  let ?le = "\<lambda>a b. createdAt b < createdAt a \<or>
                    (createdAt a = createdAt b \<and>
                     (eventId a \<noteq> [] \<and> eventId b \<noteq> [] \<longrightarrow> eventId b \<le> eventId a))"
  have trans: "?le a c" if "a \<in> set h" "b \<in> set h" "c \<in> set h" "?le a b" "?le b c" for a b c
  proof (cases "createdAt a = createdAt b \<and> createdAt b = createdAt c")
    case False
    then show ?thesis using that(4,5) by auto
  next
    case same: True
    show ?thesis
    proof (cases "eventId b = []")
      case True
      then have "eventId a \<noteq> [] \<and> eventId c \<noteq> [] \<longrightarrow> eventId a = eventId c"
        using assms that(1-3) same unfolding comparatorConsistent_def by metis
      then show ?thesis using same by auto
    next
      case False
      then show ?thesis using that(4,5) same by auto
    qed
  qed
  have "sorted_wrt ?le (array_sort compareHistory h)"
  proof (rule sorted_wrt_array_sort [where S = "set h"])
    show "set h \<subseteq> set h" by simp
  next
    fix a b assume "a \<in> set h" "b \<in> set h" "\<not> compareHistory a b \<le> 0"
    then show "?le b a" by (auto simp: compareHistory_def Let_def split: if_splits)
  next
    fix a b assume "a \<in> set h" "b \<in> set h" "compareHistory a b \<le> 0"
    then show "?le a b" by (auto simp: compareHistory_def Let_def split: if_splits)
  next
    fix a b c assume "a \<in> set h" "b \<in> set h" "c \<in> set h" "?le a b" "?le b c"
    then show "?le a c" by (rule trans)
  qed
  then show ?thesis using assms by (simp add: sortedHistoryEvents_def mset_array_sort)
qed

text \<open>
  C4, as the code has it. When \<open>userId\<close> and \<open>courseId\<close> are accepted by the cast to \<open>uuid\<close>,
  \<open>getLearnerHistory\<close> returns rows of the learner and course newest first: \<open>createdAt\<close>
  never increases along the result. The query does not order rows of equal \<open>createdAt\<close>:
  every arrangement of the matching rows in which \<open>createdAt\<close> never increases, cut at
  \<open>limit\<close>, is the result under some plan. The tie-break is the dashboard's: when the
  comparator of \<open>sortedHistoryEvents\<close> is consistent on the returned rows, as it is when none
  of them has an empty id, the dashboard shows the same rows newest first, and of two rows
  with equal \<open>createdAt\<close> and non-empty ids the one with the greater id first.
\<close>

theorem history_newest_first_ties_by_dashboard:
  assumes "uuid uid = Some u" "uuid cid = Some c"
    and "mset (plan (filter (historyWhere u c bf) table)) = mset (filter (historyWhere u c bf) table)"
  shows "(\<exists>rows. getLearnerHistory uuid plan table uid cid limit bf = Inr rows \<and>
            sorted_wrt (\<lambda>a b. createdAt b \<le> createdAt a) rows \<and>
            set rows \<subseteq> selectRow ` {r \<in> set table. historyWhere u c bf r} \<and>
            length rows = min limit (length (filter (historyWhere u c bf) table)) \<and>
            ((\<forall>r\<in>set rows. eventId r \<noteq> []) \<longrightarrow> comparatorConsistent rows) \<and>
            (comparatorConsistent rows \<longrightarrow>
               (\<exists>s. sortedHistoryEvents rows = Some s \<and> mset s = mset rows \<and>
                  sorted_wrt
                    (\<lambda>a b. createdAt b < createdAt a \<or>
                           (createdAt a = createdAt b \<and>
                            (eventId a \<noteq> [] \<and> eventId b \<noteq> [] \<longrightarrow> eventId b \<le> eventId a)))
                    s))) \<and>
         (\<forall>rs. mset rs = mset (filter (historyWhere u c bf) table) \<and>
               sorted_wrt (\<lambda>a b. created_at b \<le> created_at a) rs \<longrightarrow>
               getLearnerHistory uuid (\<lambda>m. rs) table uid cid limit bf =
                 Inr (map selectRow (take limit rs)))"
proof (intro conjI allI impI)
  obtain rows where rows: "getLearnerHistory uuid plan table uid cid limit bf = Inr rows"
      "sorted_wrt (\<lambda>a b. createdAt b \<le> createdAt a) rows"
      "set rows \<subseteq> selectRow ` {r \<in> set table. historyWhere u c bf r}"
      "length rows = min limit (length (filter (historyWhere u c bf) table))"
    using history_rows
      [where uuid = uuid and uid = uid and u = u and cid = cid and c = c and plan = plan
         and bf = bf and table = table and limit = limit]
      assms
    by blast
  have ids: "(\<forall>r\<in>set rows. eventId r \<noteq> []) \<longrightarrow> comparatorConsistent rows"
    using consistent_if_ids by blast
  have dash: "comparatorConsistent rows \<longrightarrow>
               (\<exists>s. sortedHistoryEvents rows = Some s \<and> mset s = mset rows \<and>
                  sorted_wrt
                    (\<lambda>a b. createdAt b < createdAt a \<or>
                           (createdAt a = createdAt b \<and>
                            (eventId a \<noteq> [] \<and> eventId b \<noteq> [] \<longrightarrow> eventId b \<le> eventId a)))
                    s)"
    using sorted_history_events [of rows] by blast
  show "\<exists>rows. getLearnerHistory uuid plan table uid cid limit bf = Inr rows \<and>
            sorted_wrt (\<lambda>a b. createdAt b \<le> createdAt a) rows \<and>
            set rows \<subseteq> selectRow ` {r \<in> set table. historyWhere u c bf r} \<and>
            length rows = min limit (length (filter (historyWhere u c bf) table)) \<and>
            ((\<forall>r\<in>set rows. eventId r \<noteq> []) \<longrightarrow> comparatorConsistent rows) \<and>
            (comparatorConsistent rows \<longrightarrow>
               (\<exists>s. sortedHistoryEvents rows = Some s \<and> mset s = mset rows \<and>
                  sorted_wrt
                    (\<lambda>a b. createdAt b < createdAt a \<or>
                           (createdAt a = createdAt b \<and>
                            (eventId a \<noteq> [] \<and> eventId b \<noteq> [] \<longrightarrow> eventId b \<le> eventId a)))
                    s))"
    using rows ids dash by blast
next
  fix rs
  assume "mset rs = mset (filter (historyWhere u c bf) table) \<and>
               sorted_wrt (\<lambda>a b. created_at b \<le> created_at a) rs"
  then show "getLearnerHistory uuid (\<lambda>m. rs) table uid cid limit bf =
                 Inr (map selectRow (take limit rs))"
    using history_any_arrangement
      [where uuid = uuid and uid = uid and u = u and cid = cid and c = c and rs = rs
         and bf = bf and table = table and limit = limit]
      assms(1,2)
    by blast
qed

lemma uuid_in_learnerOne: "uuid_in learnerOne = Some learnerOne"
  by code_simp

lemma uuid_in_courseOne: "uuid_in courseOne = Some courseOne"
  by code_simp

text \<open>
  Three events of one learner, two of them written in the same millisecond, and an event of
  another learner, produced in the order of insertion: the query returns the learner's rows
  newest first, the dashboard puts the two simultaneous rows in descending order of id.
\<close>

theorem history_newest_first_ties_by_dashboard_witness:
  "getLearnerHistory uuid_in id [eventA, eventX, eventB, eventC] learnerOne courseOne 10 None
     = Inr [selectRow eventC, selectRow eventA, selectRow eventB] \<and>
   sortedHistoryEvents [selectRow eventC, selectRow eventA, selectRow eventB]
     = Some [selectRow eventC, selectRow eventB, selectRow eventA]"
proof -
  let ?table = "[eventA, eventX, eventB, eventC]"
  have p: "mset (id (filter (historyWhere learnerOne courseOne None) ?table)) =
           mset (filter (historyWhere learnerOne courseOne None) ?table)"
    by simp
  obtain rows where
    rows: "getLearnerHistory uuid_in id ?table learnerOne courseOne 10 None = Inr rows" and
    ids: "(\<forall>r\<in>set rows. eventId r \<noteq> []) \<longrightarrow> comparatorConsistent rows" and
    dash: "comparatorConsistent rows \<longrightarrow> (\<exists>s. sortedHistoryEvents rows = Some s \<and> mset s = mset rows)"
    using history_newest_first_ties_by_dashboard
      [where uuid = uuid_in and uid = learnerOne and u = learnerOne and cid = courseOne
         and c = courseOne and plan = id and bf = None and table = ?table and limit = 10,
       OF uuid_in_learnerOne uuid_in_courseOne p]
    by blast
  have q: "getLearnerHistory uuid_in id ?table learnerOne courseOne 10 None
             = Inr [selectRow eventC, selectRow eventA, selectRow eventB]"
    by (subst history_accepted [OF uuid_in_learnerOne uuid_in_courseOne])
       (simp add: historyWhere_def array_sort_def eventA_def eventB_def eventC_def eventX_def
          storedRow_def learnerOne_def learnerTwo_def courseOne_def)
  then have r: "rows = [selectRow eventC, selectRow eventA, selectRow eventB]"
    using rows by simp
  have "\<forall>r\<in>set rows. eventId r \<noteq> []"
    unfolding r by (simp add: selectRow_def eventA_def eventB_def eventC_def storedRow_def)
  then have "comparatorConsistent [selectRow eventC, selectRow eventA, selectRow eventB]"
    using ids r by simp
  then have "sortedHistoryEvents [selectRow eventC, selectRow eventA, selectRow eventB]
      = Some [selectRow eventC, selectRow eventB, selectRow eventA]"
    by (simp add: sortedHistoryEvents_def compareHistory_def array_sort_def
          selectRow_def eventA_def eventB_def eventC_def storedRow_def)
  then show ?thesis using q by simp
qed

text \<open>
  Two events of one learner with the same \<open>createdAt\<close>: the plan that produces them in the
  order of insertion returns them in ascending order of id, the plan that produces them in
  the opposite order returns them in descending order. Both are results of the same query on
  the same table.
\<close>

theorem getLearnerHistory_ties_follow_plan:
  "getLearnerHistory uuid_in id [eventA, eventB] learnerOne courseOne 10 None
     = Inr [selectRow eventA, selectRow eventB] \<and>
   getLearnerHistory uuid_in rev [eventA, eventB] learnerOne courseOne 10 None
     = Inr [selectRow eventB, selectRow eventA] \<and>
   createdAt (selectRow eventA) = createdAt (selectRow eventB) \<and>
   eventId (selectRow eventA) < eventId (selectRow eventB)"
  by (subst (1 2) history_accepted [OF uuid_in_learnerOne uuid_in_courseOne])
     (simp add: historyWhere_def array_sort_def selectRow_def eventA_def eventB_def
        storedRow_def)

section \<open>Properties of the event buffer\<close>

text \<open>
  C9. In a browser, with a non-empty session token set, recording an event that brings the
  queue to \<open>MAX_BUFFER_SIZE\<close> flushes within the call: the queue is empty afterwards and one
  request has been issued with the token, holding the whole queue with the new event last.
  The timer plays no part: \<open>flushTimer\<close> is as before. With 19 events queued, the batch has
  20.
\<close>

theorem recordTelemetryEvent_flush_at_max:
  assumes "isBrowser s" "currentToken s = Some token" "token \<noteq> []"
    and "MAX_BUFFER_SIZE \<le> length (buffer s) + 1"
  shows "buffer (recordTelemetryEvent clock event s) = [] \<and>
         requests (recordTelemetryEvent clock event s) =
           requests s @
             [\<lparr>authorization = token, events_r = stampEvents clock (buffer s @ [event])\<rparr>] \<and>
         flushTimer (recordTelemetryEvent clock event s) = flushTimer s \<and>
         (length (buffer s) = 19 \<longrightarrow>
            length (events_r (last (requests (recordTelemetryEvent clock event s)))) = 20)"
  using assms
  by (simp add: recordTelemetryEvent_def flushBuffer_def tokenSet_def Let_def stampEvents_def)

text \<open>The twentieth event empties a queue of nineteen into one request of twenty.\<close>

theorem recordTelemetryEvent_flush_at_max_witness:
  "length (buffer fullBuffer) = 19 \<and>
   buffer (recordTelemetryEvent (fixedClock ''2024-01-01T09:00:00.000Z'')
      (clientEvent ''video.play'') fullBuffer) = [] \<and>
   length (requests (recordTelemetryEvent (fixedClock ''2024-01-01T09:00:00.000Z'')
      (clientEvent ''video.play'') fullBuffer)) = 1 \<and>
   length (events_r (last (requests (recordTelemetryEvent
      (fixedClock ''2024-01-01T09:00:00.000Z'') (clientEvent ''video.play'') fullBuffer)))) = 20"
  using recordTelemetryEvent_flush_at_max [of fullBuffer "''token''"
      "fixedClock ''2024-01-01T09:00:00.000Z''" "clientEvent ''video.play''"]
  by (simp add: fullBuffer_def MAX_BUFFER_SIZE_def stampEvents_def)

end

